theory Spec2Isabelle
  imports Main "HOL-Library.Multiset" "HOL-Library.Sublist"
begin

section \<open>Data model (supabase/migrations: the three tables)\<close>

text \<open>
  The enum types \<^verbatim>\<open>incident_status\<close> and \<^verbatim>\<open>incident_priority\<close> of the migration.
  The client sees a column of such a type as the label string, and compares it with
  string literals (\<^verbatim>\<open>i.status === "open"\<close>), so each type comes with its labels.
\<close>

datatype incident_status = Open | InProgress | Resolved | Closed

datatype incident_priority = Low | Medium | High | Critical

fun status_label :: "incident_status \<Rightarrow> string" where
  "status_label Open = ''open''"
| "status_label InProgress = ''in_progress''"
| "status_label Resolved = ''resolved''"
| "status_label Closed = ''closed''"

fun priority_label :: "incident_priority \<Rightarrow> string" where
  "priority_label Low = ''low''"
| "priority_label Medium = ''medium''"
| "priority_label High = ''high''"
| "priority_label Critical = ''critical''"

type_synonym uuid = string
type_synonym timestamp = nat

text \<open>Table \<^verbatim>\<open>public.profiles\<close>.\<close>

record profile =
  prof_id :: uuid
  full_name :: string
  email :: string
  role :: string
  avatar_url :: "string option"
  prof_created_at :: timestamp
  prof_updated_at :: timestamp

text \<open>
  Table \<^verbatim>\<open>public.incidents\<close>. The nullable columns (\<^verbatim>\<open>assigned_to\<close>,
  \<^verbatim>\<open>evidence_urls\<close>, \<^verbatim>\<open>resolved_at\<close>) are options.
\<close>

record incident =
  inc_id :: uuid
  title :: string
  description :: string
  status :: incident_status
  priority :: incident_priority
  category :: string
  location :: string
  reporter_id :: uuid
  assigned_to :: "uuid option"
  evidence_urls :: "string list option"
  created_at :: timestamp
  updated_at :: timestamp
  resolved_at :: "timestamp option"

text \<open>Table \<^verbatim>\<open>public.incident_updates\<close>; \<^verbatim>\<open>update_type\<close> is free text.\<close>

record incident_update =
  upd_id :: uuid
  incident_id :: uuid
  user_id :: uuid
  update_type :: string
  content :: string
  upd_created_at :: timestamp

text \<open>The store: each table is the list of its rows, in the order they were inserted.\<close>

record database =
  profiles :: "profile list"
  incidents :: "incident list"
  incident_updates :: "incident_update list"

section \<open>Aggregation (Dashboard.tsx, component Analytics)\<close>

text \<open>
  \<^verbatim>\<open>incidents\<close> is the \<^verbatim>\<open>data\<close> of a query: \<^verbatim>\<open>undefined\<close> (here \<open>None\<close>) until the
  fetch has returned, then the array of rows. \<^verbatim>\<open>incidents?.filter(p).length || 0\<close> is the
  number of rows that satisfy \<open>p\<close>, and 0 on \<^verbatim>\<open>undefined\<close>.
\<close>

definition count_where :: "(incident \<Rightarrow> bool) \<Rightarrow> incident list option \<Rightarrow> nat" where
  "count_where p data = (case data of None \<Rightarrow> 0 | Some xs \<Rightarrow> length (filter p xs))"

record stats =
  total :: nat
  "open" :: nat
  inProgress :: nat
  resolved :: nat
  closed :: nat
  critical :: nat
  high :: nat

definition stats :: "incident list option \<Rightarrow> stats" where
  "stats data =
     \<lparr> total = (case data of None \<Rightarrow> 0 | Some xs \<Rightarrow> length xs),
       open = count_where (\<lambda>i. status_label (status i) = ''open'') data,
       inProgress = count_where (\<lambda>i. status_label (status i) = ''in_progress'') data,
       resolved = count_where (\<lambda>i. status_label (status i) = ''resolved'') data,
       closed = count_where (\<lambda>i. status_label (status i) = ''closed'') data,
       critical = count_where (\<lambda>i. priority_label (priority i) = ''critical'') data,
       high = count_where (\<lambda>i. priority_label (priority i) = ''high'') data \<rparr>"

text \<open>
  The accumulator of the two \<^verbatim>\<open>reduce\<close> calls is a JavaScript object used as a
  dictionary from label to count. It is modelled by its own properties in the order
  they were created. \<^verbatim>\<open>acc[k] = (acc[k] || 0) + 1\<close> creates the property with value 1
  when it is missing and adds 1 to it otherwise (\<^verbatim>\<open>v || 0\<close> is \<open>v\<close> for a number \<open>v\<close>,
  also for 0).

  The object literal \<^verbatim>\<open>{}\<close> inherits from \<^verbatim>\<open>Object.prototype\<close>: for a label that names
  one of its members the read \<^verbatim>\<open>acc[k]\<close> finds the inherited member rather than
  \<^verbatim>\<open>undefined\<close>, and the count is no number any more. \<open>inherited_name\<close> lists these
  labels; the model counts them like any other label, so the theorems about the
  dictionaries ask for labels that are not inherited names.
\<close>

type_synonym js_object = "(string \<times> nat) list"

definition inherited_name :: "string \<Rightarrow> bool" where
  "inherited_name k \<longleftrightarrow> k \<in> set [''constructor'', ''toString'', ''toLocaleString'', ''valueOf'',
     ''hasOwnProperty'', ''isPrototypeOf'', ''propertyIsEnumerable'', ''__proto__'',
     ''__defineGetter__'', ''__defineSetter__'', ''__lookupGetter__'', ''__lookupSetter__'']"

definition bump :: "string \<Rightarrow> js_object \<Rightarrow> js_object" where
  "bump k acc =
     (case map_of acc k of
        None \<Rightarrow> acc @ [(k, 1)]
      | Some v \<Rightarrow> map (\<lambda>(k', v'). if k' = k then (k', v + 1) else (k', v')) acc)"

definition categoryStats :: "incident list option \<Rightarrow> js_object option" where
  "categoryStats data = map_option (foldl (\<lambda>acc i. bump (category i) acc) []) data"

definition locationStats :: "incident list option \<Rightarrow> js_object option" where
  "locationStats data = map_option (foldl (\<lambda>acc i. bump (location i) acc) []) data"

text \<open>
  \<^verbatim>\<open>Object.entries\<close> lists the own properties of an object: first the keys that are
  array indices (the decimal numeral, without leading zeros, of a number below
  \<open>2^32 - 1\<close>) in ascending numeric order, then all other keys in the order they were
  created.
\<close>

definition digit :: "char \<Rightarrow> bool" where
  "digit c \<longleftrightarrow> c \<in> set ''0123456789''"

definition numeral_value :: "string \<Rightarrow> nat" where
  "numeral_value s = foldl (\<lambda>n c. 10 * n + (of_char c - 48)) 0 s"

definition array_index :: "string \<Rightarrow> bool" where
  "array_index s \<longleftrightarrow>
     s \<noteq> [] \<and> list_all digit s \<and> (s = ''0'' \<or> hd s \<noteq> CHR ''0'') \<and>
     numeral_value s < 4294967295"

definition Object_entries :: "js_object \<Rightarrow> (string \<times> nat) list" where
  "Object_entries obj =
     sort_key (\<lambda>(k, v). numeral_value k) (filter (\<lambda>(k, v). array_index k) obj) @
     filter (\<lambda>(k, v). \<not> array_index k) obj"

text \<open>
  Sorting in descending order of a numeric key, keeping the given order among rows
  with equal keys. It stands for \<^verbatim>\<open>.sort(([, a], [, b]) => b - a)\<close> on the entries
  (\<^verbatim>\<open>Array.prototype.sort\<close> is stable, and this comparator puts the larger count
  first) and for \<^verbatim>\<open>.order("created_at", { ascending: false })\<close> on a table (where the
  store does not say in which order it returns rows of equal \<^verbatim>\<open>created_at\<close>; the
  model returns them in table order). A stable sort has one result whatever the
  algorithm; here it is insertion from the right, each row going behind the rows with
  a strictly larger key only.
\<close>

fun insert_desc :: "('a \<Rightarrow> nat) \<Rightarrow> 'a \<Rightarrow> 'a list \<Rightarrow> 'a list" where
  "insert_desc key x [] = [x]"
| "insert_desc key x (y # ys) =
     (if key x < key y then y # insert_desc key x ys else x # y # ys)"

definition sort_desc :: "('a \<Rightarrow> nat) \<Rightarrow> 'a list \<Rightarrow> 'a list" where
  "sort_desc key xs = foldr (insert_desc key) xs []"

text \<open>\<^verbatim>\<open>Object.entries(categoryStats || {}).sort(...).slice(0, 5)\<close>\<close>

definition top_entries :: "js_object option \<Rightarrow> (string \<times> nat) list" where
  "top_entries obj = take 5 (sort_desc snd (Object_entries (case obj of None \<Rightarrow> [] | Some o' \<Rightarrow> o')))"

definition topCategories :: "incident list option \<Rightarrow> (string \<times> nat) list" where
  "topCategories data = top_entries (categoryStats data)"

definition topLocations :: "incident list option \<Rightarrow> (string \<times> nat) list" where
  "topLocations data = top_entries (locationStats data)"

text \<open>
  The words of the specification for the top entries, to compare \<open>top_entries\<close>
  with. \<open>ks\<close> are the labels of the incidents in input order.
  \<open>highest_counts n ks es\<close>: \<open>es\<close> are \<open>n\<close> entries (fewer when there are fewer
  distinct labels), each a label with its number of occurrences, in descending order
  of the counts, and no label left out has a higher count than one of them.
  \<open>first_seen_ties ks es\<close>: entries with equal counts are in the order in which
  their labels are first encountered, and a label left out with the count of an entry
  is first encountered after that entry's label.
\<close>

definition highest_counts :: "nat \<Rightarrow> string list \<Rightarrow> (string \<times> nat) list \<Rightarrow> bool" where
  "highest_counts n ks es \<longleftrightarrow>
     length es = min n (card (set ks)) \<and>
     distinct (map fst es) \<and>
     (\<forall>(k, c) \<in> set es. k \<in> set ks \<and> c = count_list ks k) \<and>
     sorted_wrt (\<lambda>a b. snd b \<le> snd a) es \<and>
     (\<forall>k \<in> set ks. k \<notin> fst ` set es \<longrightarrow> (\<forall>e \<in> set es. count_list ks k \<le> snd e))"

definition first_index :: "string list \<Rightarrow> string \<Rightarrow> nat" where
  "first_index ks k = length (takeWhile (\<lambda>x. x \<noteq> k) ks)"

definition first_seen_ties :: "string list \<Rightarrow> (string \<times> nat) list \<Rightarrow> bool" where
  "first_seen_ties ks es \<longleftrightarrow>
     sorted_wrt (\<lambda>a b. snd a = snd b \<longrightarrow> first_index ks (fst a) < first_index ks (fst b)) es \<and>
     (\<forall>k \<in> set ks. k \<notin> fst ` set es \<longrightarrow>
        (\<forall>e \<in> set es. snd e = count_list ks k \<longrightarrow> first_index ks (fst e) < first_index ks k))"

text \<open>
  Both at once, as one order: an entry ranks before another when its count is
  higher, or the counts are equal and its label is encountered first.
\<close>

definition ranks_before :: "string list \<Rightarrow> string \<times> nat \<Rightarrow> string \<times> nat \<Rightarrow> bool" where
  "ranks_before ks a b \<longleftrightarrow>
     snd b < snd a \<or> (snd a = snd b \<and> first_index ks (fst a) < first_index ks (fst b))"

text \<open>
  The labels for which the dictionary behaves as a plain table in creation order:
  no array index (which \<^verbatim>\<open>Object.entries\<close> moves to the front) and no inherited name.
\<close>

definition plain_label :: "string \<Rightarrow> bool" where
  "plain_label k \<longleftrightarrow> \<not> array_index k \<and> \<not> inherited_name k"

text \<open>The labels in the order in which each is first encountered.\<close>

definition first_seen :: "string list \<Rightarrow> string list" where
  "first_seen ks = rev (remdups (rev ks))"

text \<open>
  The width of a priority bar: \<^verbatim>\<open>`${(stats.critical / stats.total) * 100}%`\<close>. The
  division is the division of JavaScript numbers: \<^verbatim>\<open>0 / 0\<close> is \<^verbatim>\<open>NaN\<close> and
  \<^verbatim>\<open>n / 0\<close> is \<^verbatim>\<open>Infinity\<close> for \<open>n > 0\<close>; both stay what they are when multiplied
  by 100, and the template literal prints them as \<^verbatim>\<open>NaN%\<close> and \<^verbatim>\<open>Infinity%\<close>. For a
  total above 0 the result is a finite number followed by \<^verbatim>\<open>%\<close>; its digits play no
  part below, so it is kept as the two counts.
\<close>

datatype bar_width = NaN_percent | Infinity_percent | Percent_of nat nat

definition bar_width :: "nat \<Rightarrow> nat \<Rightarrow> bar_width" where
  "bar_width n tot =
     (if tot = 0 then (if n = 0 then NaN_percent else Infinity_percent) else Percent_of n tot)"

definition critical_bar :: "incident list option \<Rightarrow> bar_width" where
  "critical_bar data = bar_width (critical (stats data)) (total (stats data))"

definition high_bar :: "incident list option \<Rightarrow> bar_width" where
  "high_bar data = bar_width (high (stats data)) (total (stats data))"

section \<open>The record store as the components call it\<close>

text \<open>
  What a call needs from outside the tables: the signed-in user that
  \<^verbatim>\<open>supabase.auth.getUser()\<close> returns (\<open>None\<close> for \<^verbatim>\<open>user: null\<close>), the browser's
  clock (\<^verbatim>\<open>new Date()\<close>), the store's clock (\<^verbatim>\<open>now()\<close>) and the identifier that
  \<^verbatim>\<open>gen_random_uuid()\<close> gives the next row.

  Every call to the store also takes a flag \<open>fault\<close>: the call fails for a reason
  that lies outside the tables (the connection, the service). The checks that the
  migration writes into the tables (primary keys, \<^verbatim>\<open>NOT NULL\<close>, the reference from an
  update to its incident, defaults, the \<^verbatim>\<open>updated_at\<close> trigger) are part of the
  model, and so is the row-level policy on updates of incidents. The policies on
  inserts ask that the new row names the caller, which the rows of the components do
  whenever there is a user; the policies on reading are not modelled (the queries
  are those of a signed-in user), nor are the references to \<^verbatim>\<open>auth.users\<close>, a table
  that is not in the migration. A failed call returns \<open>Inl\<close> and leaves the tables as
  they were.
\<close>

datatype error = NotAuthenticated | UploadError | StoreError

record env =
  session :: "uuid option"
  client_now :: timestamp
  server_now :: timestamp
  gen_random_uuid :: uuid

text \<open>
  \<^verbatim>\<open>from("incidents").insert({title, description, priority, category, location,
  reporter_id, evidence_urls}).select().single()\<close>: the columns that the payload leaves
  out take their defaults (\<^verbatim>\<open>status\<close> is \<^verbatim>\<open>'open'\<close>, the two timestamps are \<^verbatim>\<open>now()\<close>,
  \<^verbatim>\<open>assigned_to\<close> and \<^verbatim>\<open>resolved_at\<close> are null); the new row is returned.
\<close>

definition insert_incident ::
  "bool \<Rightarrow> env \<Rightarrow> string \<Rightarrow> string \<Rightarrow> incident_priority \<Rightarrow> string \<Rightarrow> string \<Rightarrow> uuid \<Rightarrow>
   string list \<Rightarrow> database \<Rightarrow> error + incident \<times> database" where
  "insert_incident fault e t d p c l r urls db =
     (let row = \<lparr> inc_id = gen_random_uuid e, title = t, description = d, status = Open,
                  priority = p, category = c, location = l, reporter_id = r,
                  assigned_to = None, evidence_urls = Some urls,
                  created_at = server_now e, updated_at = server_now e,
                  resolved_at = None \<rparr>
      in if fault \<or> inc_id row \<in> set (map inc_id (incidents db)) then Inl StoreError
         else Inr (row, db\<lparr>incidents := incidents db @ [row]\<rparr>))"

text \<open>
  \<^verbatim>\<open>from("incidents").update({status, resolved_at}).eq("id", incidentId)\<close>: every row
  with this id takes the two values, and the trigger sets its \<^verbatim>\<open>updated_at\<close>. No row
  with this id is no error. The table has row-level security with one policy for
  updates, \<^verbatim>\<open>FOR UPDATE TO authenticated USING (true)\<close>: the request of a caller who is
  not signed in finds no row to update, changes nothing, and is no error either.
\<close>

definition update_incident ::
  "bool \<Rightarrow> env \<Rightarrow> uuid \<Rightarrow> incident_status \<Rightarrow> timestamp option \<Rightarrow> database \<Rightarrow> error + database" where
  "update_incident fault e incidentId s r db =
     (if fault then Inl StoreError
      else if session e = None then Inr db
      else Inr (db\<lparr>incidents :=
             map (\<lambda>i. if inc_id i = incidentId
                       then i\<lparr>status := s, resolved_at := r, updated_at := server_now e\<rparr>
                       else i) (incidents db)\<rparr>))"

text \<open>
  \<^verbatim>\<open>from("incident_updates").insert({incident_id, user_id, update_type, content})\<close>.
  \<^verbatim>\<open>user_id\<close> is \<^verbatim>\<open>user?.id\<close>, which is \<^verbatim>\<open>undefined\<close> without a user: the column is
  \<^verbatim>\<open>NOT NULL\<close>, so the insert is refused. \<^verbatim>\<open>incident_id\<close> must be the id of an incident.
\<close>

definition insert_update ::
  "bool \<Rightarrow> env \<Rightarrow> uuid \<Rightarrow> uuid option \<Rightarrow> string \<Rightarrow> string \<Rightarrow> database \<Rightarrow> error + database" where
  "insert_update fault e incidentId uid ty c db =
     (case uid of
        None \<Rightarrow> Inl StoreError
      | Some u \<Rightarrow>
          if fault \<or> incidentId \<notin> set (map inc_id (incidents db)) \<or>
             gen_random_uuid e \<in> set (map upd_id (incident_updates db))
          then Inl StoreError
          else Inr (db\<lparr>incident_updates := incident_updates db @
                 [\<lparr> upd_id = gen_random_uuid e, incident_id = incidentId, user_id = u,
                    update_type = ty, content = c, upd_created_at = server_now e \<rparr>]\<rparr>))"


text \<open>
  \<^verbatim>\<open>from("profiles").select("full_name, email").eq("id", x).single()\<close>, of which the
  callers read \<^verbatim>\<open>data\<close> only: the two columns of the one row with this id, and null
  when there is no such row or the call fails (\<open>failing x\<close>).
\<close>

record profile_summary =
  ps_full_name :: string
  ps_email :: string


section \<open>Incident form (Dashboard.tsx, component IncidentForm)\<close>

text \<open>
  The state of the form. Files are known by their names; the upload of one file (to
  the path made of the user id, the time and the extension) and the public URL it
  gets belong to the storage service, here the function \<open>upload\<close> from user and file
  to a URL or an error.
\<close>

record form =
  form_title :: string
  form_description :: string
  form_priority :: incident_priority
  form_category :: string
  form_location :: string
  form_files :: "string list"

fun uploadFiles :: "(string \<Rightarrow> error + string) \<Rightarrow> string list \<Rightarrow> error + string list" where
  "uploadFiles up [] = Inr []"
| "uploadFiles up (f # fs) =
     (case up f of
        Inl uploadError \<Rightarrow> Inl uploadError
      | Inr publicUrl \<Rightarrow>
          (case uploadFiles up fs of
             Inl uploadError \<Rightarrow> Inl uploadError
           | Inr evidenceUrls \<Rightarrow> Inr (publicUrl # evidenceUrls)))"

text \<open>The \<^verbatim>\<open>mutationFn\<close> of \<^verbatim>\<open>createIncident\<close>.\<close>

definition createIncident ::
  "bool \<Rightarrow> env \<Rightarrow> (uuid \<Rightarrow> string \<Rightarrow> error + string) \<Rightarrow> form \<Rightarrow> database \<Rightarrow>
   error + incident \<times> database" where
  "createIncident fault e upload f db =
     (case session e of
        None \<Rightarrow> Inl NotAuthenticated
      | Some user \<Rightarrow>
          (case uploadFiles (upload user) (form_files f) of
             Inl uploadError \<Rightarrow> Inl uploadError
           | Inr evidenceUrls \<Rightarrow>
               insert_incident fault e (form_title f) (form_description f) (form_priority f)
                 (form_category f) (form_location f) user evidenceUrls db))"

text \<open>
  The form around it. The inputs for title and location and the text area for the
  description are marked \<^verbatim>\<open>required\<close>: while one of them is empty the browser does
  not raise the submit event (\<open>None\<close>: nothing is called). The select box for the
  category has no such mark, and the priority always has a value. Otherwise
  \<^verbatim>\<open>onSubmit\<close> calls \<^verbatim>\<open>createIncident.mutate()\<close>.
\<close>

definition onSubmit ::
  "bool \<Rightarrow> env \<Rightarrow> (uuid \<Rightarrow> string \<Rightarrow> error + string) \<Rightarrow> form \<Rightarrow> database \<Rightarrow>
   (error + incident \<times> database) option" where
  "onSubmit fault e upload f db =
     (if form_title f = [] \<or> form_location f = [] \<or> form_description f = [] then None
      else Some (createIncident fault e upload f db))"

section \<open>Incident details (IncidentDetails.tsx)\<close>

text \<open>
  The \<^verbatim>\<open>mutationFn\<close> of \<^verbatim>\<open>updateStatus\<close>. The error of the first call is thrown; of the
  second call (the insert of the timeline entry) nothing is read, neither \<^verbatim>\<open>error\<close> nor
  \<^verbatim>\<open>data\<close>, so the mutation succeeds whether or not the entry was written.
\<close>

definition updateStatus ::
  "bool \<Rightarrow> bool \<Rightarrow> env \<Rightarrow> uuid \<Rightarrow> incident_status \<Rightarrow> database \<Rightarrow> error + database" where
  "updateStatus fault1 fault2 e incidentId s db =
     (case update_incident fault1 e incidentId s
             (if status_label s = ''resolved'' then Some (client_now e) else None) db of
        Inl err \<Rightarrow> Inl err
      | Inr db1 \<Rightarrow>
          (case insert_update fault2 e incidentId (session e) ''status_change''
                  (''Status changed to: '' @ status_label s) db1 of
             Inl _ \<Rightarrow> Inr db1
           | Inr db2 \<Rightarrow> Inr db2))"

text \<open>The \<^verbatim>\<open>mutationFn\<close> of \<^verbatim>\<open>addUpdate\<close>; \<open>newUpdate\<close> is the text of the comment box.\<close>

definition addUpdate :: "bool \<Rightarrow> env \<Rightarrow> uuid \<Rightarrow> string \<Rightarrow> database \<Rightarrow> error + database" where
  "addUpdate fault e incidentId newUpdate db =
     insert_update fault e incidentId (session e) ''comment'' newUpdate db"

section \<open>Incident list (IncidentList.tsx)\<close>

text \<open>
  A listed incident is the row with the summaries of its reporter and assignee:
  \<^verbatim>\<open>{...incident, reporter: reporterData, assigned: assignedData}\<close>.
\<close>

record incidentWithProfiles = incident +
  reporter :: "profile_summary option"
  assigned :: "profile_summary option"


























section \<open>Sample data\<close>

text \<open>
  One account, one open incident without timeline entries, a moment at which the
  account is signed in, and a filled form with one file. The instances of the
  theorems below are taken here.
\<close>

definition sample_incident :: incident where
  "sample_incident =
     \<lparr> inc_id = ''i1'', title = ''Door forced'', description = ''Lock broken at night'',
       status = Open, priority = High, category = ''theft'', location = ''Building 1'',
       reporter_id = ''u1'', assigned_to = None, evidence_urls = Some [],
       created_at = 10, updated_at = 10, resolved_at = None \<rparr>"

definition sample_profile :: profile where
  "sample_profile =
     \<lparr> prof_id = ''u1'', full_name = ''Ada'', email = ''ada@example.org'',
       role = ''security_officer'', avatar_url = None,
       prof_created_at = 1, prof_updated_at = 1 \<rparr>"

definition sample_db :: database where
  "sample_db = \<lparr> profiles = [sample_profile], incidents = [sample_incident],
                 incident_updates = [] \<rparr>"

definition sample_env :: env where
  "sample_env = \<lparr> session = Some ''u1'', client_now = 20, server_now = 21,
                  gen_random_uuid = ''n1'' \<rparr>"

definition signed_out :: env where
  "signed_out = sample_env\<lparr>session := None\<rparr>"

definition sample_upload :: "uuid \<Rightarrow> string \<Rightarrow> error + string" where
  "sample_upload user file = Inr (''https://store/'' @ user @ ''/'' @ file)"

definition sample_form :: form where
  "sample_form =
     \<lparr> form_title = ''Smoke'', form_description = ''Smoke in the corridor'',
       form_priority = Critical, form_category = ''fire'', form_location = ''Building 2'',
       form_files = [''a.png''] \<rparr>"

text \<open>
  The two incidents of the specification's scenario, and an older closed incident for
  the list.
\<close>

definition incident_A :: incident where
  "incident_A = sample_incident\<lparr>inc_id := ''a'', priority := Critical, category := ''fire'',
     location := ''Building 1''\<rparr>"

definition incident_B :: incident where
  "incident_B = sample_incident\<lparr>inc_id := ''b'', priority := Low, category := ''theft'',
     location := ''Building 2''\<rparr>"




text \<open>
  A user's run of comment submissions on the details dialog, each with its own
  moment and outcome of the call; after a failed submission the tables are what they
  were and the next one goes on from there.
\<close>

fun addUpdates :: "(bool \<times> env \<times> uuid \<times> string) list \<Rightarrow> database \<Rightarrow> database" where
  "addUpdates [] db = db"
| "addUpdates ((fault, e, incidentId, newUpdate) # rest) db =
     (case addUpdate fault e incidentId newUpdate db of
        Inl _ \<Rightarrow> addUpdates rest db
      | Inr db' \<Rightarrow> addUpdates rest db')"

section \<open>Properties of the aggregation\<close>

lemma status_label_cases:
  "status_label s = ''open'' \<longleftrightarrow> s = Open"
  "status_label s = ''in_progress'' \<longleftrightarrow> s = InProgress"
  "status_label s = ''resolved'' \<longleftrightarrow> s = Resolved"
  "status_label s = ''closed'' \<longleftrightarrow> s = Closed"
  by (cases s; simp)+

text \<open>
  C9. For every sequence of incidents the total is its length; over the empty
  sequence every status and priority count is zero, the category and location
  dictionaries are empty, and the top categories are the empty sequence.
\<close>

theorem summarize_total_and_empty:
  "total (stats (Some xs)) = length xs \<and>
   stats (Some []) = \<lparr> total = 0, open = 0, inProgress = 0, resolved = 0, closed = 0,
                       critical = 0, high = 0 \<rparr> \<and>
   categoryStats (Some []) = Some [] \<and> locationStats (Some []) = Some [] \<and>
   topCategories (Some []) = [] \<and> topLocations (Some []) = []"
  by (simp add: stats_def count_where_def categoryStats_def locationStats_def
      topCategories_def topLocations_def top_entries_def Object_entries_def sort_desc_def)

text \<open>
  C10. The four per-status counts add up to the total: the labels the counts compare
  with are exactly the four labels of the enum.
\<close>

theorem status_counts_partition:
  "open (stats (Some xs)) + inProgress (stats (Some xs)) + resolved (stats (Some xs)) +
   closed (stats (Some xs)) = total (stats (Some xs))"
proof (induction xs)
  case Nil
  show ?case by (simp add: stats_def count_where_def)
next
  case (Cons x xs)
  then show ?case
    by (cases "status x") (simp_all add: stats_def count_where_def)
qed

text \<open>
  C6. With no incidents the two priority bars divide zero by zero: the width is
  \<^verbatim>\<open>NaN%\<close>, on the empty array and before the data has arrived alike. The division
  has no case for a total of zero.
\<close>

theorem bar_width_of_no_incidents:
  "critical_bar (Some []) = NaN_percent \<and> high_bar (Some []) = NaN_percent \<and>
   critical_bar None = NaN_percent \<and> high_bar None = NaN_percent"
  by (simp add: critical_bar_def high_bar_def bar_width_def stats_def count_where_def)

text \<open>The same for every total of zero: both counts are then zero too.\<close>

lemma bar_width_of_total_zero:
  assumes "total (stats data) = 0"
  shows "critical_bar data = NaN_percent" and "high_bar data = NaN_percent"
  using assms
  by (cases data; simp add: critical_bar_def high_bar_def bar_width_def stats_def count_where_def)+

subsection \<open>The descending sort\<close>

lemma set_insert_desc: "set (insert_desc key x ys) = insert x (set ys)"
  by (induction ys) auto

lemma mset_insert_desc: "mset (insert_desc key x ys) = add_mset x (mset ys)"
  by (induction ys) auto

lemma sort_desc_Cons: "sort_desc key (x # xs) = insert_desc key x (sort_desc key xs)"
  by (simp add: sort_desc_def)

lemma sort_desc_Nil: "sort_desc key [] = []"
  by (simp add: sort_desc_def)

lemma mset_sort_desc: "mset (sort_desc key xs) = mset xs"
  by (induction xs) (simp_all add: sort_desc_Nil sort_desc_Cons mset_insert_desc)

lemma set_sort_desc: "set (sort_desc key xs) = set xs"
  using mset_sort_desc [of key xs] by (metis set_mset_mset)

lemma length_sort_desc: "length (sort_desc key xs) = length xs"
  using mset_sort_desc [of key xs] by (metis size_mset)

lemma sorted_wrt_insert_desc:
  assumes R_key: "\<And>a b. R a b \<Longrightarrow> key b \<le> key a"
    and "sorted_wrt R ys"
    and "\<forall>y \<in> set ys. (key x < key y \<longrightarrow> R y x) \<and> (key y \<le> key x \<longrightarrow> R x y)"
  shows "sorted_wrt R (insert_desc key x ys)"
  using assms(2,3)
proof (induction ys)
  case Nil
  show ?case by simp
next
  case (Cons y ys)
  show ?case
  proof (cases "key x < key y")
    case True
    with Cons show ?thesis by (auto simp: set_insert_desc)
  next
    case False
    have "R x z" if "z \<in> set (y # ys)" for z
    proof -
      have "key z \<le> key y" using that Cons.prems(1) R_key by auto
      with False have "key z \<le> key x" by simp
      with that Cons.prems(2) show ?thesis by blast
    qed
    with False Cons.prems(1) show ?thesis by simp
  qed
qed

lemma sorted_wrt_sort_desc:
  assumes R_key: "\<And>a b. R a b \<Longrightarrow> key b \<le> key a"
    and "sorted_wrt (\<lambda>x y. (key x < key y \<longrightarrow> R y x) \<and> (key y \<le> key x \<longrightarrow> R x y)) xs"
  shows "sorted_wrt R (sort_desc key xs)"
  using assms(2)
proof (induction xs)
  case Nil
  show ?case by (simp add: sort_desc_Nil)
next
  case (Cons x xs)
  then show ?case
    by (auto simp: sort_desc_Cons set_sort_desc intro!: sorted_wrt_insert_desc R_key)
qed

lemma sort_desc_descending: "sorted_wrt (\<lambda>a b. key b \<le> key a) (sort_desc key xs)"
proof (rule sorted_wrt_sort_desc)
  show "sorted_wrt (\<lambda>x y. (key x < key y \<longrightarrow> key x \<le> key y) \<and> (key y \<le> key x \<longrightarrow> key y \<le> key x)) xs"
    by (induction xs) auto
qed simp


subsection \<open>The dictionaries and the top entries\<close>

lemma first_seen_snoc:
  "first_seen (ks @ [k]) = (if k \<in> set ks then first_seen ks else first_seen ks @ [k])"
  by (simp add: first_seen_def)

lemma set_first_seen: "set (first_seen ks) = set ks"
  by (simp add: first_seen_def)

lemma distinct_first_seen: "distinct (first_seen ks)"
  by (simp add: first_seen_def)

lemma length_first_seen: "length (first_seen ks) = card (set ks)"
  by (simp add: first_seen_def length_remdups_card_conv)

lemma map_of_counts:
  "map_of (map (\<lambda>k. (k, f k)) ks) k = (if k \<in> set ks then Some (f k) else None)"
  by (induction ks) auto

lemma bump_counts:
  "bump k (map (\<lambda>k'. (k', count_list ks k')) (first_seen ks)) =
     map (\<lambda>k'. (k', count_list (ks @ [k]) k')) (first_seen (ks @ [k]))"
proof (cases "k \<in> set ks")
  case True
  then show ?thesis
    by (simp add: bump_def map_of_counts set_first_seen first_seen_snoc)
next
  case False
  then show ?thesis
    by (auto simp: bump_def map_of_counts set_first_seen first_seen_snoc)
qed

lemma foldl_bump_counts:
  "foldl (\<lambda>acc k. bump k acc) [] ks = map (\<lambda>k. (k, count_list ks k)) (first_seen ks)"
proof (induction ks rule: rev_induct)
  case Nil
  show ?case by (simp add: first_seen_def)
next
  case (snoc k ks)
  then show ?case by (simp only: foldl_append foldl.simps bump_counts)
qed

lemma first_index_less: "k \<in> set ks \<Longrightarrow> first_index ks k < length ks"
  unfolding first_index_def by (induction ks) auto

lemma first_index_append1: "k \<in> set ks \<Longrightarrow> first_index (ks @ ys) k = first_index ks k"
  unfolding first_index_def by (induction ks) auto

lemma first_index_append2: "k \<notin> set ks \<Longrightarrow> first_index (ks @ [k]) k = length ks"
  unfolding first_index_def by (induction ks) auto

lemma first_seen_in_order:
  "sorted_wrt (\<lambda>a b. first_index ks a < first_index ks b) (first_seen ks)"
proof (induction ks rule: rev_induct)
  case Nil
  show ?case by (simp add: first_seen_def)
next
  case (snoc k ks)
  have old: "sorted_wrt (\<lambda>a b. first_index (ks @ [k]) a < first_index (ks @ [k]) b) (first_seen ks)"
    by (rule sorted_wrt_mono_rel [OF _ snoc.IH]) (simp add: set_first_seen first_index_append1)
  show ?case
  proof (cases "k \<in> set ks")
    case True
    with old show ?thesis by (simp add: first_seen_snoc)
  next
    case False
    then have "first_index (ks @ [k]) a < first_index (ks @ [k]) k" if "a \<in> set ks" for a
      using that by (simp add: first_index_append1 first_index_append2 first_index_less)
    with old False show ?thesis
      by (simp add: first_seen_snoc sorted_wrt_append set_first_seen)
  qed
qed

lemma mset_Object_entries: "mset (Object_entries obj) = mset obj"
  by (simp add: Object_entries_def)

lemma Object_entries_plain:
  assumes "\<forall>k \<in> fst ` set obj. \<not> array_index k"
  shows "Object_entries obj = obj"
proof -
  have "filter (\<lambda>(k, v). array_index k) obj = []"
    using assms by (auto simp: filter_empty_conv)
  moreover have "filter (\<lambda>(k, v). \<not> array_index k) obj = obj"
    using assms by (auto simp: filter_id_conv)
  ultimately show ?thesis by (simp add: Object_entries_def)
qed

lemma ranks_before_count: "ranks_before ks a b \<Longrightarrow> snd b \<le> snd a"
  by (auto simp: ranks_before_def)

lemma take_sorted_wrt:
  assumes "sorted_wrt R S"
  shows "sorted_wrt R (take n S)" and "\<forall>a \<in> set (take n S). \<forall>b \<in> set (drop n S). R a b"
proof -
  from assms have "sorted_wrt R (take n S @ drop n S)" by simp
  then show "sorted_wrt R (take n S)" and "\<forall>a \<in> set (take n S). \<forall>b \<in> set (drop n S). R a b"
    unfolding sorted_wrt_append by blast+
qed

lemma left_out_in_drop:
  assumes "distinct (map fst S)" and "(k, c) \<in> set S" and "k \<notin> fst ` set (take n S)"
  shows "(k, c) \<in> set (drop n S)"
proof -
  have "set S = set (take n S) \<union> set (drop n S)"
    by (metis append_take_drop_id set_append)
  with assms(2) have "(k, c) \<in> set (take n S) \<or> (k, c) \<in> set (drop n S)" by blast
  moreover have "(k, c) \<notin> set (take n S)" using assms(3) by force
  ultimately show ?thesis by blast
qed

text \<open>
  The entries of the dictionary, in whatever order \<^verbatim>\<open>Object.entries\<close> lists them,
  sorted and cut: the five highest counts.
\<close>

lemma top_entries_highest:
  "highest_counts 5 ks (top_entries (Some (foldl (\<lambda>acc k. bump k acc) [] ks)))"
proof -
  define E where "E = map (\<lambda>k. (k, count_list ks k)) (first_seen ks)"
  define S where "S = sort_desc snd (Object_entries E)"
  define T where "T = take 5 S"
  have top: "top_entries (Some (foldl (\<lambda>acc k. bump k acc) [] ks)) = T"
    by (simp add: top_entries_def foldl_bump_counts E_def S_def T_def)
  have keys: "map fst E = first_seen ks" by (simp add: E_def comp_def)
  have mS: "mset S = mset E" by (simp add: S_def mset_sort_desc mset_Object_entries)
  then have setS: "set S = set E" by (metis set_mset_mset)
  have setE: "set E = (\<lambda>k. (k, count_list ks k)) ` set ks"
    by (simp add: E_def set_first_seen)
  from mS have "mset (map fst S) = mset (map fst E)" by (metis mset_map)
  then have dS: "distinct (map fst S)"
    using distinct_first_seen [of ks] keys by (metis mset_eq_imp_distinct_iff)
  have sS: "sorted_wrt (\<lambda>a b. snd b \<le> snd a) S"
    unfolding S_def by (rule sort_desc_descending)
  from mS have "length S = length E" by (metis size_mset)
  then have 1: "length T = min 5 (card (set ks))"
    by (simp add: T_def E_def length_first_seen)
  have 2: "distinct (map fst T)"
    using dS by (simp add: T_def take_map [symmetric] distinct_take)
  have subset: "set T \<subseteq> set E"
    using setS set_take_subset [of 5 S] by (simp add: T_def)
  have 3: "\<forall>(k, c) \<in> set T. k \<in> set ks \<and> c = count_list ks k"
    using subset setE by auto
  have 4: "sorted_wrt (\<lambda>a b. snd b \<le> snd a) T"
    unfolding T_def by (rule take_sorted_wrt(1) [OF sS])
  have 5: "\<forall>k \<in> set ks. k \<notin> fst ` set T \<longrightarrow> (\<forall>e \<in> set T. count_list ks k \<le> snd e)"
  proof (intro ballI impI)
    fix k e
    assume k: "k \<in> set ks" and out: "k \<notin> fst ` set T" and e: "e \<in> set T"
    from k have "(k, count_list ks k) \<in> set S" by (simp add: setS setE)
    with dS out have "(k, count_list ks k) \<in> set (drop 5 S)"
      unfolding T_def by (intro left_out_in_drop)
    with take_sorted_wrt(2) [OF sS, of 5] e show "count_list ks k \<le> snd e"
      unfolding T_def by fastforce
  qed
  from 1 2 3 4 5 show ?thesis unfolding top highest_counts_def by blast
qed

text \<open>
  When no label is an array index \<^verbatim>\<open>Object.entries\<close> lists the entries in the order
  in which the labels are first encountered, and the stable sort keeps that order
  among equal counts.
\<close>

lemma top_entries_ties:
  assumes "list_all plain_label ks"
  shows "first_seen_ties ks (top_entries (Some (foldl (\<lambda>acc k. bump k acc) [] ks)))"
proof -
  define E where "E = map (\<lambda>k. (k, count_list ks k)) (first_seen ks)"
  define S where "S = sort_desc snd E"
  define T where "T = take 5 S"
  have keys: "map fst E = first_seen ks" by (simp add: E_def comp_def)
  have "\<forall>k \<in> fst ` set E. \<not> array_index k"
    using assms by (auto simp: E_def set_first_seen list_all_iff plain_label_def)
  then have top: "top_entries (Some (foldl (\<lambda>acc k. bump k acc) [] ks)) = T"
    by (simp add: top_entries_def foldl_bump_counts Object_entries_plain E_def S_def T_def)
  have setS: "set S = set E" by (simp add: S_def set_sort_desc)
  have setE: "set E = (\<lambda>k. (k, count_list ks k)) ` set ks"
    by (simp add: E_def set_first_seen)
  have "mset (map fst S) = mset (map fst E)"
    by (simp add: S_def mset_sort_desc)
  then have dS: "distinct (map fst S)"
    using distinct_first_seen [of ks] keys by (metis mset_eq_imp_distinct_iff)
  have "sorted_wrt (\<lambda>x y. (snd x < snd y \<longrightarrow> ranks_before ks y x) \<and>
                          (snd y \<le> snd x \<longrightarrow> ranks_before ks x y)) E"
    unfolding E_def sorted_wrt_map
    by (rule sorted_wrt_mono_rel [OF _ first_seen_in_order]) (auto simp: ranks_before_def)
  then have sS: "sorted_wrt (ranks_before ks) S"
    unfolding S_def by (rule sorted_wrt_sort_desc [rotated]) (rule ranks_before_count)
  have "sorted_wrt (ranks_before ks) T"
    unfolding T_def by (rule take_sorted_wrt(1) [OF sS])
  then have 1: "sorted_wrt (\<lambda>a b. snd a = snd b \<longrightarrow>
      first_index ks (fst a) < first_index ks (fst b)) T"
    by (rule sorted_wrt_mono_rel [rotated]) (auto simp: ranks_before_def)
  have 2: "\<forall>k \<in> set ks. k \<notin> fst ` set T \<longrightarrow>
      (\<forall>e \<in> set T. snd e = count_list ks k \<longrightarrow> first_index ks (fst e) < first_index ks k)"
  proof (intro ballI impI)
    fix k e
    assume k: "k \<in> set ks" and out: "k \<notin> fst ` set T" and e: "e \<in> set T"
      and same: "snd e = count_list ks k"
    from k have "(k, count_list ks k) \<in> set S" by (simp add: setS setE)
    with dS out have "(k, count_list ks k) \<in> set (drop 5 S)"
      unfolding T_def by (intro left_out_in_drop)
    with take_sorted_wrt(2) [OF sS, of 5] e have "ranks_before ks e (k, count_list ks k)"
      unfolding T_def by blast
    with same show "first_index ks (fst e) < first_index ks k"
      by (simp add: ranks_before_def)
  qed
  from 1 2 show ?thesis unfolding top first_seen_ties_def by blast
qed

lemma categoryStats_labels:
  "categoryStats (Some xs) = Some (foldl (\<lambda>acc k. bump k acc) [] (map category xs))"
  by (simp add: categoryStats_def foldl_map)

lemma locationStats_labels:
  "locationStats (Some xs) = Some (foldl (\<lambda>acc k. bump k acc) [] (map location xs))"
  by (simp add: locationStats_def foldl_map)

text \<open>
  C5, as the code has it. \<open>topCategories\<close> and \<open>topLocations\<close> take no count: they
  return five entries, or as many as there are distinct labels. When no label is an
  inherited name, these are the entries with the highest counts, each label with its
  number of occurrences, in descending order of the counts; when the labels are
  plain, ties are in the order in which the labels are first encountered.
\<close>

theorem top_five_by_count:
  "(list_all (\<lambda>k. \<not> inherited_name k) (map category xs) \<longrightarrow>
      highest_counts 5 (map category xs) (topCategories (Some xs))) \<and>
   (list_all (\<lambda>k. \<not> inherited_name k) (map location xs) \<longrightarrow>
      highest_counts 5 (map location xs) (topLocations (Some xs))) \<and>
   (list_all plain_label (map category xs) \<longrightarrow>
      first_seen_ties (map category xs) (topCategories (Some xs))) \<and>
   (list_all plain_label (map location xs) \<longrightarrow>
      first_seen_ties (map location xs) (topLocations (Some xs)))"
  by (simp add: topCategories_def topLocations_def categoryStats_labels locationStats_labels
      top_entries_highest top_entries_ties)

theorem top_five_by_count_witness:
  "list_all plain_label (map category [incident_A, incident_B]) \<and>
   list_all plain_label (map location [incident_A, incident_B]) \<and>
   highest_counts 5 (map category [incident_A, incident_B])
     (topCategories (Some [incident_A, incident_B])) \<and>
   highest_counts 5 (map location [incident_A, incident_B])
     (topLocations (Some [incident_A, incident_B])) \<and>
   first_seen_ties (map category [incident_A, incident_B])
     (topCategories (Some [incident_A, incident_B])) \<and>
   first_seen_ties (map location [incident_A, incident_B])
     (topLocations (Some [incident_A, incident_B]))"
proof -
  have c: "list_all plain_label (map category [incident_A, incident_B])"
    by code_simp
  have l: "list_all plain_label (map location [incident_A, incident_B])"
    by code_simp
  from c have c': "list_all (\<lambda>k. \<not> inherited_name k) (map category [incident_A, incident_B])"
    by (simp add: plain_label_def)
  from l have l': "list_all (\<lambda>k. \<not> inherited_name k) (map location [incident_A, incident_B])"
    by (simp add: plain_label_def)
  from c l c' l' top_five_by_count [of "[incident_A, incident_B]"] show ?thesis
    by blast
qed

text \<open>
  C5, as the claim has it: for the categories fire and theft, once each, the top
  entries are both of them, not the first alone.
\<close>

theorem topCategories_fire_theft:
  "topCategories (Some [incident_A, incident_B]) = [(''fire'', 1), (''theft'', 1)] \<and>
   topCategories (Some [incident_A, incident_B]) \<noteq> [(''fire'', 1)]"
proof -
  have "topCategories (Some [incident_A, incident_B]) = [(''fire'', 1), (''theft'', 1)]"
    by code_simp
  then show ?thesis by simp
qed

text \<open>
  A label that is an array index comes first among equal counts although it is
  encountered last: location 7 after location B.
\<close>

lemma topLocations_array_index_first:
  "topLocations (Some [incident_A\<lparr>location := ''B''\<rparr>, incident_B\<lparr>location := ''7''\<rparr>]) =
     [(''7'', 1), (''B'', 1)]"
proof -
  have a: "array_index ''7''" "\<not> array_index ''B''"
    by (simp_all add: array_index_def digit_def numeral_value_def)
  have "locationStats (Some [incident_A\<lparr>location := ''B''\<rparr>, incident_B\<lparr>location := ''7''\<rparr>]) =
      Some [(''B'', 1), (''7'', 1)]"
    by (simp add: locationStats_def bump_def)
  then show ?thesis
    by (simp add: topLocations_def top_entries_def Object_entries_def a sort_desc_def)
qed

section \<open>Properties of the incident form\<close>

lemma insert_incident_Inr:
  assumes "insert_incident fault e t d p c l r urls db = Inr (row, db')"
  shows "row = \<lparr> inc_id = gen_random_uuid e, title = t, description = d, status = Open,
                 priority = p, category = c, location = l, reporter_id = r,
                 assigned_to = None, evidence_urls = Some urls,
                 created_at = server_now e, updated_at = server_now e,
                 resolved_at = None \<rparr>"
    and "db' = db\<lparr>incidents := incidents db @ [row]\<rparr>"
    and "\<not> fault" and "gen_random_uuid e \<notin> set (map inc_id (incidents db))"
  using assms by (auto simp: insert_incident_def Let_def split: if_splits)

lemma createIncident_Inr:
  assumes "createIncident fault e upload f db = Inr (row, db')"
  obtains user urls where "session e = Some user"
    and "uploadFiles (upload user) (form_files f) = Inr urls"
    and "insert_incident fault e (form_title f) (form_description f) (form_priority f)
           (form_category f) (form_location f) user urls db = Inr (row, db')"
  using assms by (auto simp: createIncident_def split: option.splits sum.splits)

text \<open>
  C2. Every record that \<open>createIncident\<close> returns is the last row of the incidents
  table, is open and has no resolution time, whatever the form holds (the form has no
  status, and the insert sends none); and the call does return a record when the user
  is signed in, the uploads succeed and the store takes the row.
\<close>

theorem createIncident_open_unresolved:
  "(\<forall>row db'. createIncident fault e upload f db = Inr (row, db') \<longrightarrow>
      status row = Open \<and> resolved_at row = None \<and> incidents db' = incidents db @ [row] \<and>
      incident_updates db' = incident_updates db \<and> Some (reporter_id row) = session e) \<and>
   (\<forall>user urls. session e = Some user \<and> uploadFiles (upload user) (form_files f) = Inr urls \<and>
      \<not> fault \<and> gen_random_uuid e \<notin> set (map inc_id (incidents db)) \<longrightarrow>
      (\<exists>row db'. createIncident fault e upload f db = Inr (row, db')))"
proof (intro conjI allI impI)
  fix row db'
  assume ok: "createIncident fault e upload f db = Inr (row, db')"
  then obtain user urls where u: "session e = Some user"
    and ins: "insert_incident fault e (form_title f) (form_description f) (form_priority f)
           (form_category f) (form_location f) user urls db = Inr (row, db')"
    by (rule createIncident_Inr)
  note r = insert_incident_Inr(1,2) [OF ins]
  show "status row = Open" by (subst r(1)) simp
  show "resolved_at row = None" by (subst r(1)) simp
  show "incidents db' = incidents db @ [row]" by (subst r(2)) simp
  show "incident_updates db' = incident_updates db" by (subst r(2)) simp
  show "Some (reporter_id row) = session e" by (subst r(1)) (simp add: u)
next
  fix user urls
  assume "session e = Some user \<and> uploadFiles (upload user) (form_files f) = Inr urls \<and>
      \<not> fault \<and> gen_random_uuid e \<notin> set (map inc_id (incidents db))"
  then show "\<exists>row db'. createIncident fault e upload f db = Inr (row, db')"
    by (simp add: createIncident_def insert_incident_def Let_def)
qed

theorem createIncident_open_unresolved_witness:
  "\<exists>row db'. createIncident False sample_env sample_upload sample_form sample_db = Inr (row, db') \<and>
     status row = Open \<and> resolved_at row = None \<and> incidents db' = [sample_incident, row]"
proof -
  have pre: "session sample_env = Some ''u1'' \<and>
      uploadFiles (sample_upload ''u1'') (form_files sample_form) = Inr [''https://store/u1/a.png''] \<and>
      \<not> False \<and> gen_random_uuid sample_env \<notin> set (map inc_id (incidents sample_db))"
    by (simp add: sample_env_def sample_form_def sample_upload_def sample_db_def
        sample_incident_def)
  note t = createIncident_open_unresolved
    [of False sample_env sample_upload sample_form sample_db]
  from t pre obtain row db' where
    r: "createIncident False sample_env sample_upload sample_form sample_db = Inr (row, db')"
    by blast
  with t have "status row = Open \<and> resolved_at row = None \<and>
      incidents db' = incidents sample_db @ [row]"
    by blast
  with r show ?thesis by (auto simp: sample_db_def)
qed

text \<open>
  C3. A form whose category is the empty text (the category box was never opened)
  and whose other fields are filled in is submitted and taken: \<open>createIncident\<close>
  checks no field, and the row with the empty category is written to the table.
\<close>

theorem createIncident_empty_category_persisted:
  "createIncident False sample_env sample_upload (sample_form\<lparr>form_category := ''''\<rparr>) sample_db =
     Inr (\<lparr> inc_id = ''n1'', title = ''Smoke'', description = ''Smoke in the corridor'',
            status = Open, priority = Critical, category = '''', location = ''Building 2'',
            reporter_id = ''u1'', assigned_to = None,
            evidence_urls = Some [''https://store/u1/a.png''],
            created_at = 21, updated_at = 21, resolved_at = None \<rparr>,
          sample_db\<lparr>incidents :=
            [sample_incident,
             \<lparr> inc_id = ''n1'', title = ''Smoke'', description = ''Smoke in the corridor'',
               status = Open, priority = Critical, category = '''', location = ''Building 2'',
               reporter_id = ''u1'', assigned_to = None,
               evidence_urls = Some [''https://store/u1/a.png''],
               created_at = 21, updated_at = 21, resolved_at = None \<rparr>]\<rparr>) \<and>
   onSubmit False sample_env sample_upload (sample_form\<lparr>form_category := ''''\<rparr>) sample_db =
     Some (createIncident False sample_env sample_upload
             (sample_form\<lparr>form_category := ''''\<rparr>) sample_db)"
  by (simp add: onSubmit_def createIncident_def insert_incident_def Let_def sample_env_def
      sample_form_def sample_upload_def sample_db_def sample_incident_def)

text \<open>
  The three marked fields do keep an empty text from the store: nothing is called.
\<close>

lemma onSubmit_required_fields:
  assumes "form_title f = [] \<or> form_location f = [] \<or> form_description f = []"
  shows "onSubmit fault e upload f db = None"
  using assms by (simp add: onSubmit_def)

text \<open>
  No field of the form decides whether \<open>createIncident\<close> succeeds: two forms with the
  same files succeed or fail together.
\<close>

lemma createIncident_checks_no_field:
  assumes "form_files f = form_files g"
  shows "isl (createIncident fault e upload f db) = isl (createIncident fault e upload g db)"
  using assms
  by (auto simp: createIncident_def insert_incident_def Let_def split: option.splits sum.splits)

section \<open>Properties of the details dialog\<close>

lemma insert_update_Inr:
  assumes "insert_update fault e incidentId uid ty c db = Inr db'"
  obtains u where "uid = Some u" and "\<not> fault"
    and "incidentId \<in> set (map inc_id (incidents db))"
    and "gen_random_uuid e \<notin> set (map upd_id (incident_updates db))"
    and "db' = db\<lparr>incident_updates := incident_updates db @
                 [\<lparr> upd_id = gen_random_uuid e, incident_id = incidentId, user_id = u,
                    update_type = ty, content = c, upd_created_at = server_now e \<rparr>]\<rparr>"
  using assms by (auto simp: insert_update_def split: option.splits if_splits)

text \<open>
  C8. Every successful \<open>addUpdate\<close> leaves the incidents table (and so the status,
  priority and \<open>updated_at\<close> of the parent incident) as it was and puts one entry of
  kind comment, with the submitted text, behind the timeline; it succeeds when the
  user is signed in, the incident exists and the store takes the row. A run of
  submissions, in any order and with any texts, leaves the incidents table as it was.
\<close>

theorem addUpdate_appends_comment_only:
  "(\<forall>db'. addUpdate fault e incidentId newUpdate db = Inr db' \<longrightarrow>
      incidents db' = incidents db \<and> profiles db' = profiles db \<and>
      (\<exists>u. incident_updates db' = incident_updates db @ [u] \<and> update_type u = ''comment'' \<and>
           content u = newUpdate \<and> incident_id u = incidentId \<and>
           Some (user_id u) = session e)) \<and>
   (session e \<noteq> None \<and> \<not> fault \<and> incidentId \<in> set (map inc_id (incidents db)) \<and>
      gen_random_uuid e \<notin> set (map upd_id (incident_updates db)) \<longrightarrow>
      (\<exists>db'. addUpdate fault e incidentId newUpdate db = Inr db')) \<and>
   incidents (addUpdates submissions db) = incidents db"
proof (intro conjI allI impI)
  fix db'
  assume "addUpdate fault e incidentId newUpdate db = Inr db'"
  then have ins: "insert_update fault e incidentId (session e) ''comment'' newUpdate db = Inr db'"
    by (simp add: addUpdate_def)
  from ins obtain u where u: "session e = Some u"
    and d: "db' = db\<lparr>incident_updates := incident_updates db @
                 [\<lparr> upd_id = gen_random_uuid e, incident_id = incidentId, user_id = u,
                    update_type = ''comment'', content = newUpdate,
                    upd_created_at = server_now e \<rparr>]\<rparr>"
    by (rule insert_update_Inr)
  show "incidents db' = incidents db" by (simp add: d)
  show "profiles db' = profiles db" by (simp add: d)
  show "\<exists>u. incident_updates db' = incident_updates db @ [u] \<and> update_type u = ''comment'' \<and>
           content u = newUpdate \<and> incident_id u = incidentId \<and> Some (user_id u) = session e"
    by (simp add: d u)
next
  assume "session e \<noteq> None \<and> \<not> fault \<and> incidentId \<in> set (map inc_id (incidents db)) \<and>
      gen_random_uuid e \<notin> set (map upd_id (incident_updates db))"
  then show "\<exists>db'. addUpdate fault e incidentId newUpdate db = Inr db'"
    by (auto simp: addUpdate_def insert_update_def)
next
  show "incidents (addUpdates submissions db) = incidents db"
  proof (induction submissions arbitrary: db)
    case Nil
    show ?case by simp
  next
    case (Cons s rest)
    obtain fault' e' i' t' where s: "s = (fault', e', i', t')" by (cases s)
    show ?case
    proof (cases "addUpdate fault' e' i' t' db")
      case (Inl err)
      with Cons.IH [of db] show ?thesis by (simp add: s)
    next
      case (Inr db1)
      then have "insert_update fault' e' i' (session e') ''comment'' t' db = Inr db1"
        by (simp add: addUpdate_def)
      then have "incidents db1 = incidents db"
        by (rule insert_update_Inr) simp
      with Cons.IH [of db1] Inr show ?thesis by (simp add: s)
    qed
  qed
qed

theorem addUpdate_appends_comment_only_witness:
  "\<exists>db'. addUpdate False sample_env ''i1'' ''Checked the door'' sample_db = Inr db' \<and>
     incidents db' = [sample_incident] \<and>
     (\<exists>u. incident_updates db' = [u] \<and> update_type u = ''comment'' \<and>
          content u = ''Checked the door'' \<and> user_id u = ''u1'')"
proof -
  have pre: "session sample_env \<noteq> None \<and> \<not> False \<and>
      ''i1'' \<in> set (map inc_id (incidents sample_db)) \<and>
      gen_random_uuid sample_env \<notin> set (map upd_id (incident_updates sample_db))"
    by (simp add: sample_env_def sample_db_def sample_incident_def)
  note t = addUpdate_appends_comment_only
    [of False sample_env "''i1''" "''Checked the door''" sample_db "[]"]
  from t pre obtain db' where
    r: "addUpdate False sample_env ''i1'' ''Checked the door'' sample_db = Inr db'"
    by blast
  with t have "incidents db' = incidents sample_db \<and>
      (\<exists>u. incident_updates db' = incident_updates sample_db @ [u] \<and>
           update_type u = ''comment'' \<and> content u = ''Checked the door'' \<and>
           incident_id u = ''i1'' \<and> Some (user_id u) = session sample_env)"
    by blast
  with r show ?thesis by (auto simp: sample_db_def sample_env_def)
qed

text \<open>
  What \<open>updateStatus\<close> does when both of its calls are taken by the store: the
  incident has the new status, a resolution time exactly for \<open>resolved\<close>, and the
  timeline has one more entry, of kind status change, by the signed-in user. The
  status the incident had before plays no part.
\<close>

lemma updateStatus_both_writes:
  assumes "session e = Some u" and "\<not> fault1" and "\<not> fault2"
    and "incidentId \<in> set (map inc_id (incidents db))"
    and "gen_random_uuid e \<notin> set (map upd_id (incident_updates db))"
  shows "\<exists>db'. updateStatus fault1 fault2 e incidentId s db = Inr db' \<and>
      (\<forall>i \<in> set (incidents db'). inc_id i = incidentId \<longrightarrow>
          status i = s \<and> resolved_at i = (if s = Resolved then Some (client_now e) else None)) \<and>
      incident_updates db' = incident_updates db @
        [\<lparr> upd_id = gen_random_uuid e, incident_id = incidentId, user_id = u,
           update_type = ''status_change'',
           content = ''Status changed to: '' @ status_label s,
           upd_created_at = server_now e \<rparr>]"
  using assms
  by (cases s) (auto simp: updateStatus_def update_incident_def insert_update_def image_iff)

text \<open>
  C1. The status write is taken and the insert of the timeline entry fails (the
  connection drops between the two calls): \<open>updateStatus\<close> succeeds, the incident is
  resolved, and the timeline has no new entry.
\<close>

theorem updateStatus_succeeds_without_entry:
  "updateStatus False True sample_env ''i1'' Resolved sample_db =
     Inr (sample_db\<lparr>incidents :=
            [sample_incident\<lparr>status := Resolved, resolved_at := Some 20, updated_at := 21\<rparr>]\<rparr>) \<and>
   incident_updates (sample_db\<lparr>incidents :=
            [sample_incident\<lparr>status := Resolved, resolved_at := Some 20, updated_at := 21\<rparr>]\<rparr>) = []"
  by (simp add: updateStatus_def update_incident_def insert_update_def sample_env_def
      sample_db_def sample_incident_def)

text \<open>
  Without a signed-in user, whatever the incident, the status and the tables:
  \<open>updateStatus\<close> reports success and \<open>addUpdate\<close> fails with the error of the
  store; neither stops with \<open>NotAuthenticated\<close>, and neither changes a table.
\<close>

lemma updateStatus_signed_out:
  assumes "session e = None"
  shows "updateStatus False fault2 e incidentId s db = Inr db"
  using assms by (simp add: updateStatus_def update_incident_def insert_update_def)

lemma addUpdate_signed_out:
  assumes "session e = None"
  shows "addUpdate fault e incidentId newUpdate db = Inl StoreError"
  using assms by (simp add: addUpdate_def insert_update_def)

text \<open>
  C7. Without a signed-in user, \<open>createIncident\<close> stops with \<open>NotAuthenticated\<close>;
  \<open>updateStatus\<close> sends the status write before it asks for the user (the store
  changes no row for a caller who is not signed in), sends the insert with no user
  id, does not look at its refusal, and reports success; \<open>addUpdate\<close> sends the insert
  with no user id and fails with the error of the store.
\<close>

theorem signed_out_mutations:
  "createIncident False signed_out sample_upload sample_form sample_db = Inl NotAuthenticated \<and>
   updateStatus False False signed_out ''i1'' Resolved sample_db = Inr sample_db \<and>
   addUpdate False signed_out ''i1'' ''Checked the door'' sample_db = Inl StoreError"
  by (simp add: createIncident_def updateStatus_def addUpdate_def update_incident_def
      insert_update_def signed_out_def sample_env_def sample_db_def sample_incident_def)

section \<open>Properties of the incident list\<close>


subsection \<open>Lower case on ASCII text\<close>



subsection \<open>The same letter up to case\<close>












subsection \<open>The filter and the words of the specification\<close>















end
